theory Spec2Isabelle
  imports Main
begin

section \<open>Python strings\<close>

text \<open>
  A Python \<open>str\<close> is modelled as a \<open>string\<close>, each \<open>char\<close> read as one code point
  in the range U+0000 .. U+00FF. The functions below follow \<open>str.split()\<close>,
  \<open>str.strip()\<close>, \<open>str.lower()\<close>, \<open>in\<close> and \<open>str.join\<close> on that range.
\<close>

definition whitespace :: "char list" where
  "whitespace =
     [CHR 0x09, CHR 0x0A, CHR 0x0B, CHR 0x0C, CHR 0x0D, CHR 0x1C, CHR 0x1D, CHR 0x1E,
      CHR 0x1F, CHR 0x20, CHR 0x85, CHR 0xA0]"

definition isspace :: "char \<Rightarrow> bool" where
  "isspace c = (c \<in> set whitespace)"

definition uppercase :: "char list" where
  "uppercase = ''ABCDEFGHIJKLMNOPQRSTUVWXYZ'' @
     [CHR 0xC0, CHR 0xC1, CHR 0xC2, CHR 0xC3, CHR 0xC4, CHR 0xC5, CHR 0xC6, CHR 0xC7,
      CHR 0xC8, CHR 0xC9, CHR 0xCA, CHR 0xCB, CHR 0xCC, CHR 0xCD, CHR 0xCE, CHR 0xCF,
      CHR 0xD0, CHR 0xD1, CHR 0xD2, CHR 0xD3, CHR 0xD4, CHR 0xD5, CHR 0xD6,
      CHR 0xD8, CHR 0xD9, CHR 0xDA, CHR 0xDB, CHR 0xDC, CHR 0xDD, CHR 0xDE]"

definition lowercase :: "char list" where
  "lowercase = ''abcdefghijklmnopqrstuvwxyz'' @
     [CHR 0xE0, CHR 0xE1, CHR 0xE2, CHR 0xE3, CHR 0xE4, CHR 0xE5, CHR 0xE6, CHR 0xE7,
      CHR 0xE8, CHR 0xE9, CHR 0xEA, CHR 0xEB, CHR 0xEC, CHR 0xED, CHR 0xEE, CHR 0xEF,
      CHR 0xF0, CHR 0xF1, CHR 0xF2, CHR 0xF3, CHR 0xF4, CHR 0xF5, CHR 0xF6,
      CHR 0xF8, CHR 0xF9, CHR 0xFA, CHR 0xFB, CHR 0xFC, CHR 0xFD, CHR 0xFE]"

definition lower_char :: "char \<Rightarrow> char" where
  "lower_char c = (case map_of (zip uppercase lowercase) c of Some l \<Rightarrow> l | None \<Rightarrow> c)"

definition lower :: "string \<Rightarrow> string" where
  "lower s = map lower_char s"

definition strip :: "string \<Rightarrow> string" where
  "strip s = rev (dropWhile isspace (rev (dropWhile isspace s)))"

text \<open>\<open>s.split()\<close>: the maximal runs of non-whitespace characters, left to right.
  \<open>split_from w s\<close> scans \<open>s\<close> with \<open>w\<close> the word read so far.\<close>

fun split_from :: "string \<Rightarrow> string \<Rightarrow> string list" where
  "split_from w [] = (if w = [] then [] else [w])"
| "split_from w (c # cs) =
     (if isspace c then (if w = [] then split_from [] cs else w # split_from [] cs)
      else split_from (w @ [c]) cs)"

definition split :: "string \<Rightarrow> string list" where
  "split s = split_from [] s"

fun startswith :: "string \<Rightarrow> string \<Rightarrow> bool" where
  "startswith s [] = True"
| "startswith [] (p # ps) = False"
| "startswith (c # cs) (p # ps) = (c = p \<and> startswith cs ps)"

text \<open>\<open>contains s sub\<close> is Python's \<open>sub in s\<close>.\<close>

fun contains :: "string \<Rightarrow> string \<Rightarrow> bool" where
  "contains [] sub = (sub = [])"
| "contains (c # cs) sub = (startswith (c # cs) sub \<or> contains cs sub)"

text \<open>\<open>join sep xs\<close> is \<open>sep.join(xs)\<close>.\<close>

fun join :: "string \<Rightarrow> string list \<Rightarrow> string" where
  "join sep [] = []"
| "join sep [x] = x"
| "join sep (x # y # ys) = x @ sep @ join sep (y # ys)"

section \<open>Element trees\<close>

text \<open>
  An \<open>xml.etree.ElementTree.Element\<close>: its tag, its \<open>text\<close> attribute
  (here \<open>etext\<close>; \<open>None\<close> when the element is empty or starts with a child element) and its children in
  document order.
\<close>

datatype element = Element (tag: string) (etext: "string option") (children: "element list")

text \<open>\<open>Element.iter()\<close>: the element and all its descendants, in document order.\<close>

fun iter :: "element \<Rightarrow> element list" where
  "iter (Element t x cs) = Element t x cs # concat (map iter cs)"

text \<open>The path \<open>.//tg\<close>: every descendant (not the element itself) with that tag.\<close>

definition findall_descendant :: "string \<Rightarrow> element \<Rightarrow> element list" where
  "findall_descendant tg e = filter (\<lambda>d. tag d = tg) (concat (map iter (children e)))"

text \<open>The path \<open>tg\<close>: every child with that tag.\<close>

definition findall_child :: "string \<Rightarrow> element \<Rightarrow> element list" where
  "findall_child tg e = filter (\<lambda>d. tag d = tg) (children e)"

text \<open>The path \<open>.//tg1/tg2\<close>: the \<open>tg2\<close> children of the \<open>tg1\<close> descendants.\<close>

definition findall_descendant_child :: "string \<Rightarrow> string \<Rightarrow> element \<Rightarrow> element list" where
  "findall_descendant_child tg1 tg2 e = concat (map (findall_child tg2) (findall_descendant tg1 e))"

text \<open>\<open>find\<close> returns the first match or \<open>None\<close>; \<open>findtext\<close> returns the text of the
  first match (the empty string when that text is \<open>None\<close>) or the default.\<close>

definition first_match :: "element list \<Rightarrow> element option" where
  "first_match es = (case es of [] \<Rightarrow> None | e # _ \<Rightarrow> Some e)"

definition findtext :: "element list \<Rightarrow> string option" where
  "findtext es =
     (case first_match es of
        None \<Rightarrow> None
      | Some e \<Rightarrow> (case etext e of None \<Rightarrow> Some [] | Some t \<Rightarrow> Some t))"

text \<open>\<open>findtext\<close> with a \<open>str\<close> default.\<close>

definition findtext_or :: "element list \<Rightarrow> string \<Rightarrow> string" where
  "findtext_or es dflt = (case findtext es of None \<Rightarrow> dflt | Some t \<Rightarrow> t)"

section \<open>Record extraction\<close>

datatype error = ParseError | TypeError | IndexError | ValueError | OSError

text \<open>A Python dict with string keys, in insertion order; the values of a paper are
  \<open>None\<close> or a \<open>str\<close>.\<close>

type_synonym paper = "(string \<times> string option) list"

fun setitem :: "(string \<times> 'v) list \<Rightarrow> string \<Rightarrow> 'v \<Rightarrow> (string \<times> 'v) list" where
  "setitem [] k v = [(k, v)]"
| "setitem ((k', v') # d) k v = (if k' = k then (k, v) # d else (k', v') # setitem d k v)"

text \<open>The publication date of an article (lines 50-57).\<close>

definition publication_date :: "element \<Rightarrow> string" where
  "publication_date article =
     (case first_match (findall_descendant ''PubDate'' article) of
        Some pub_date \<Rightarrow>
          (let year = findtext_or (findall_child ''Year'' pub_date) '''';
               month = findtext_or (findall_child ''Month'' pub_date) '''';
               day = findtext_or (findall_child ''Day'' pub_date) ''''
           in if year \<noteq> [] then year @ ''-'' @ month @ ''-'' @ day else ''Unknown'')
      | None \<Rightarrow> ''Unknown'')"

text \<open>The four lists filled by the loop over the authors of one article.\<close>

record author_lists =
  authors :: "string list"
  non_academic_authors :: "string list"
  company_affiliations :: "string list"
  emails :: "string list"

definition company_keywords :: "string list" where
  "company_keywords = [''company'', ''pharma'', ''biotech'']"

definition fullname_of :: "element \<Rightarrow> string" where
  "fullname_of author =
     (let lastname = findtext_or (findall_child ''LastName'' author) '''';
          firstname = findtext_or (findall_child ''ForeName'' author) ''''
      in strip (firstname @ '' '' @ lastname))"

text \<open>\<open>author.find(".//AffiliationInfo/Affiliation")\<close> (line 71).\<close>

definition affiliation_of :: "element \<Rightarrow> element option" where
  "affiliation_of author =
     first_match (findall_descendant_child ''AffiliationInfo'' ''Affiliation'' author)"

text \<open>One iteration of the loop over the authors (lines 66-78). \<open>"@" in None\<close> raises
  \<open>TypeError\<close>; \<open>[-1]\<close> on an empty list raises \<open>IndexError\<close>.\<close>

definition author_step :: "author_lists \<Rightarrow> element \<Rightarrow> error + author_lists" where
  "author_step ls author =
     (let fullname = fullname_of author;
          ls1 = ls\<lparr>authors := authors ls @ [fullname]\<rparr>
      in case affiliation_of author of
           None \<Rightarrow> Inr ls1
         | Some affiliation \<Rightarrow>
             (case etext affiliation of
                None \<Rightarrow> Inl TypeError
              | Some affiliation_text \<Rightarrow>
                  (case (if contains affiliation_text ''@''
                         then (case split affiliation_text of
                                 [] \<Rightarrow> Inl IndexError
                               | w # ws \<Rightarrow> Inr (ls1\<lparr>emails := emails ls1 @ [last (w # ws)]\<rparr>))
                         else Inr ls1) of
                     Inl e \<Rightarrow> Inl e
                   | Inr ls2 \<Rightarrow>
                       if list_ex (\<lambda>keyword. contains (lower affiliation_text) keyword) company_keywords
                       then Inr (ls2\<lparr>non_academic_authors := non_academic_authors ls2 @ [fullname],
                                     company_affiliations := company_affiliations ls2 @ [affiliation_text]\<rparr>)
                       else Inr ls2)))"

fun author_loop :: "author_lists \<Rightarrow> element list \<Rightarrow> error + author_lists" where
  "author_loop ls [] = Inr ls"
| "author_loop ls (author # rest) =
     (case author_step ls author of Inl e \<Rightarrow> Inl e | Inr ls' \<Rightarrow> author_loop ls' rest)"

definition no_authors :: author_lists where
  "no_authors = \<lparr>authors = [], non_academic_authors = [], company_affiliations = [], emails = []\<rparr>"

text \<open>The body of the loop over the articles (lines 46-87): the record of one article.\<close>

definition article_paper :: "element \<Rightarrow> error + paper" where
  "article_paper article =
     (let paper0 = [];
          paper1 = setitem paper0 ''PubMedID'' (findtext (findall_descendant ''PMID'' article));
          paper2 = setitem paper1 ''Title'' (findtext (findall_descendant ''ArticleTitle'' article));
          paper3 = setitem paper2 ''Publication Date'' (Some (publication_date article))
      in case author_loop no_authors (findall_descendant ''Author'' article) of
           Inl e \<Rightarrow> Inl e
         | Inr ls \<Rightarrow>
             (let paper4 = setitem paper3 ''Authors'' (Some (join '', '' (authors ls)));
                  paper5 = setitem paper4 ''Non-academic Authors''
                             (Some (join '', '' (non_academic_authors ls)));
                  paper6 = setitem paper5 ''Company Affiliations''
                             (Some (join ''; '' (company_affiliations ls)));
                  paper7 = setitem paper6 ''Email''
                             (Some (case emails ls of [] \<Rightarrow> ''Not Available'' | e # _ \<Rightarrow> e))
              in Inr paper7))"

fun article_loop :: "paper list \<Rightarrow> element list \<Rightarrow> error + paper list" where
  "article_loop papers [] = Inr papers"
| "article_loop papers (article # rest) =
     (case article_paper article of
        Inl e \<Rightarrow> Inl e
      | Inr paper \<Rightarrow> article_loop (papers @ [paper]) rest)"

text \<open>\<open>parse_paper_details\<close> (lines 41-89). The XML parser \<open>ET.fromstring\<close> is a
  parameter: it returns the root element, or \<open>None\<close> where the library raises
  \<open>ParseError\<close> because the document is not well-formed.\<close>

definition parse_paper_details :: "(string \<Rightarrow> element option) \<Rightarrow> string \<Rightarrow> error + paper list" where
  "parse_paper_details fromstring xml_data =
     (case fromstring xml_data of
        None \<Rightarrow> Inl ParseError
      | Some root \<Rightarrow> article_loop [] (findall_descendant ''PubmedArticle'' root))"

section \<open>The tabular writer\<close>

text \<open>
  \<open>csv.DictWriter\<close> with its defaults: the excel dialect (delimiter \<open>,\<close>, quote
  character \<open>"\<close>, doubled quotes, minimal quoting, line terminator CR LF),
  \<open>restval = ""\<close> and \<open>extrasaction = "raise"\<close>.
\<close>

abbreviation delimiter :: char where "delimiter \<equiv> CHR '',''"
abbreviation quotechar :: char where "quotechar \<equiv> CHR 0x22"
abbreviation CR :: char where "CR \<equiv> CHR 0x0D"
abbreviation LF :: char where "LF \<equiv> CHR 0x0A"

definition special :: "char \<Rightarrow> bool" where
  "special c = (c = delimiter \<or> c = quotechar \<or> c = CR \<or> c = LF)"

definition double_quotes :: "string \<Rightarrow> string" where
  "double_quotes field = concat (map (\<lambda>c. if c = quotechar then [quotechar, quotechar] else [c]) field)"

text \<open>One field as the writer emits it: quoted when it holds a special character.\<close>

definition join_append :: "string \<Rightarrow> string" where
  "join_append field =
     (if list_ex special field then [quotechar] @ double_quotes field @ [quotechar] else field)"

text \<open>\<open>writer.writerow\<close>: \<open>None\<close> is written as the empty string; a row of one empty
  field is written as a pair of quotes.\<close>

definition field_str :: "string option \<Rightarrow> string" where
  "field_str v = (case v of None \<Rightarrow> [] | Some s \<Rightarrow> s)"

definition writerow :: "string option list \<Rightarrow> string" where
  "writerow row =
     (let strs = map field_str row
      in (if strs = [[]] then [quotechar, quotechar] else join [delimiter] (map join_append strs))
         @ [CR, LF])"

text \<open>\<open>DictWriter._dict_to_list\<close>: a key outside the field names raises \<open>ValueError\<close>,
  a missing key is filled with the empty string.\<close>

definition dict_to_list :: "string list \<Rightarrow> paper \<Rightarrow> error + string option list" where
  "dict_to_list fieldnames rowdict =
     (if list_ex (\<lambda>k. k \<notin> set fieldnames) (map fst rowdict) then Inl ValueError
      else Inr (map (\<lambda>key. case map_of rowdict key of None \<Rightarrow> Some [] | Some v \<Rightarrow> v) fieldnames))"

text \<open>\<open>DictWriter.writeheader\<close> writes the field names as a row.\<close>

definition writeheader :: "string list \<Rightarrow> string" where
  "writeheader fieldnames = writerow (map Some fieldnames)"

text \<open>\<open>DictWriter.writerows\<close>, with \<open>out\<close> the text written so far: the rows before a
  bad one are written, then the error is raised.\<close>

fun writerows :: "string list \<Rightarrow> string \<Rightarrow> paper list \<Rightarrow> error option \<times> string" where
  "writerows fieldnames out [] = (None, out)"
| "writerows fieldnames out (rowdict # rest) =
     (case dict_to_list fieldnames rowdict of
        Inl e \<Rightarrow> (Some e, out)
      | Inr row \<Rightarrow> writerows fieldnames (out @ writerow row) rest)"

text \<open>
  What the program acts on: the files (name to text; the UTF-8 encoding of the text is
  left out), the names that can be opened for writing, the lines printed, and the HTTP
  requests sent (URL and parameters). Where \<open>writable\<close> is false,
  \<open>open(filename, "w")\<close> raises an \<open>OSError\<close> (\<open>FileNotFoundError\<close> for an empty name or
  a missing directory, \<open>IsADirectoryError\<close>, \<open>PermissionError\<close>) and creates nothing.
\<close>

record world =
  files :: "string \<rightharpoonup> string"
  writable :: "string \<Rightarrow> bool"
  stdout :: "string list"
  requests :: "(string \<times> (string \<times> string) list) list"

definition py_print :: "string \<Rightarrow> world \<Rightarrow> world" where
  "py_print line w = w\<lparr>stdout := stdout w @ [line]\<rparr>"

definition fixed_keys :: "string list" where
  "fixed_keys = [''PubMedID'', ''Title'', ''Publication Date'', ''Authors'',
                 ''Non-academic Authors'', ''Company Affiliations'', ''Email'']"

text \<open>\<open>save_to_csv\<close> of get\_paper.py (lines 94-106). No handler surrounds \<open>open\<close>: when
  it raises, nothing is written and nothing is printed. Once the file is open it is
  closed on every way out of the \<open>with\<close> block, so what was written before an error
  stays in the file.\<close>

definition save_to_csv :: "paper list \<Rightarrow> string \<Rightarrow> world \<Rightarrow> error option \<times> world" where
  "save_to_csv parsed_data filename w =
     (if parsed_data = [] then (None, py_print ''No data to save.'' w)
      else
        (let keys = fixed_keys
         in if \<not> writable w filename then (Some OSError, w)
            else
              (let w1 = w\<lparr>files := (files w)(filename \<mapsto> [])\<rparr>
               in case writerows keys (writeheader keys) parsed_data of
                    (Some e, out) \<Rightarrow> (Some e, w1\<lparr>files := (files w1)(filename \<mapsto> out)\<rparr>)
                  | (None, out) \<Rightarrow>
                      (None, py_print (''Data saved to '' @ filename)
                               (w1\<lparr>files := (files w1)(filename \<mapsto> out)\<rparr>)))))"

text \<open>\<open>save_to_csv\<close> of cli.py (lines 3-24): the columns are the keys of the first
  record; \<open>open\<close> is as unguarded as in get\_paper.py.\<close>

definition cli_save_to_csv :: "paper list \<Rightarrow> string \<Rightarrow> world \<Rightarrow> error option \<times> world" where
  "cli_save_to_csv parsed_data filename w =
     (case parsed_data of
        [] \<Rightarrow> (None, py_print ''No data to save.'' w)
      | first # _ \<Rightarrow>
        (let keys = map fst first
         in if \<not> writable w filename then (Some OSError, w)
            else
              (let w1 = w\<lparr>files := (files w)(filename \<mapsto> [])\<rparr>
               in case writerows keys (writeheader keys) parsed_data of
                    (Some e, out) \<Rightarrow> (Some e, w1\<lparr>files := (files w1)(filename \<mapsto> out)\<rparr>)
                  | (None, out) \<Rightarrow>
                      (None, py_print (''Data saved to '' @ filename)
                               (w1\<lparr>files := (files w1)(filename \<mapsto> out)\<rparr>)))))"

section \<open>A standard delimited-text reader\<close>

text \<open>
  The reader of the round-trip property: \<open>csv.reader\<close> with the same dialect, on the
  file opened with \<open>newline=''\<close>, as a character-driven state machine. A line ends
  after LF, after CR LF, or after a CR that no LF follows; \<open>EAT_CRNL\<close> is the state
  after such a CR.
\<close>

datatype parse_state =
  START_RECORD | START_FIELD | IN_FIELD | IN_QUOTED_FIELD | QUOTE_IN_QUOTED_FIELD | EAT_CRNL

record reader =
  state :: parse_state
  field :: string
  record_fields :: "string list"
  rows :: "string list list"

definition parse_save_field :: "reader \<Rightarrow> reader" where
  "parse_save_field r = r\<lparr>record_fields := record_fields r @ [field r], field := []\<rparr>"

definition end_record :: "parse_state \<Rightarrow> reader \<Rightarrow> reader" where
  "end_record nxt r = r\<lparr>rows := rows r @ [record_fields r], record_fields := [], state := nxt\<rparr>"

definition start_field :: "reader \<Rightarrow> char \<Rightarrow> reader" where
  "start_field r c =
     (if c = LF then end_record START_RECORD (parse_save_field r)
      else if c = CR then end_record EAT_CRNL (parse_save_field r)
      else if c = quotechar then r\<lparr>state := IN_QUOTED_FIELD\<rparr>
      else if c = delimiter then (parse_save_field r)\<lparr>state := START_FIELD\<rparr>
      else r\<lparr>field := field r @ [c], state := IN_FIELD\<rparr>)"

definition start_record :: "reader \<Rightarrow> char \<Rightarrow> reader" where
  "start_record r c =
     (if c = LF then end_record START_RECORD r
      else if c = CR then end_record EAT_CRNL r
      else start_field r c)"

definition parse_process_char :: "reader \<Rightarrow> char \<Rightarrow> reader" where
  "parse_process_char r c =
     (case state r of
        START_RECORD \<Rightarrow> start_record r c
      | EAT_CRNL \<Rightarrow> (if c = LF then r\<lparr>state := START_RECORD\<rparr> else start_record r c)
      | START_FIELD \<Rightarrow> start_field r c
      | IN_FIELD \<Rightarrow>
          (if c = LF then end_record START_RECORD (parse_save_field r)
           else if c = CR then end_record EAT_CRNL (parse_save_field r)
           else if c = delimiter then (parse_save_field r)\<lparr>state := START_FIELD\<rparr>
           else r\<lparr>field := field r @ [c]\<rparr>)
      | IN_QUOTED_FIELD \<Rightarrow>
          (if c = quotechar then r\<lparr>state := QUOTE_IN_QUOTED_FIELD\<rparr>
           else r\<lparr>field := field r @ [c]\<rparr>)
      | QUOTE_IN_QUOTED_FIELD \<Rightarrow>
          (if c = quotechar then r\<lparr>field := field r @ [c], state := IN_QUOTED_FIELD\<rparr>
           else if c = delimiter then (parse_save_field r)\<lparr>state := START_FIELD\<rparr>
           else if c = LF then end_record START_RECORD (parse_save_field r)
           else if c = CR then end_record EAT_CRNL (parse_save_field r)
           else r\<lparr>field := field r @ [c], state := IN_FIELD\<rparr>))"

definition reader_start :: reader where
  "reader_start = \<lparr>state = START_RECORD, field = [], record_fields = [], rows = []\<rparr>"

text \<open>At the end of the input a record still open is closed with the field read so far.\<close>

definition reader_finish :: "reader \<Rightarrow> string list list" where
  "reader_finish r =
     (if state r = START_RECORD \<or> state r = EAT_CRNL then rows r
      else rows r @ [record_fields r @ [field r]])"

definition csv_reader :: "string \<Rightarrow> string list list" where
  "csv_reader content = reader_finish (foldl parse_process_char reader_start content)"

section \<open>The pipeline\<close>

text \<open>\<open>str(n)\<close> for an integer.\<close>

fun str_nat :: "nat \<Rightarrow> string" where
  "str_nat n =
     (if n < 10 then [''0123456789'' ! n]
      else str_nat (n div 10) @ [''0123456789'' ! (n mod 10)])"

definition str_int :: "int \<Rightarrow> string" where
  "str_int i = (if i < 0 then ''-'' @ str_nat (nat (- i)) else str_nat (nat i))"

text \<open>
  The network and the XML parser are parameters. A reply is the \<open>RequestException\<close>
  raised inside the \<open>try\<close> block, or what the program reads from the response: for the
  search the value of \<open>esearchresult\<close> and in it of \<open>idlist\<close>, either of which may be
  missing from the JSON object; for the fetch the response text.
\<close>

datatype 'a reply = RequestException string | Response 'a

record env =
  esearch :: "(string \<times> string) list \<Rightarrow> string list option option reply"
  efetch :: "(string \<times> string) list \<Rightarrow> string reply"
  et_fromstring :: "string \<Rightarrow> element option"

definition fetch_pubmed_data :: "env \<Rightarrow> string \<Rightarrow> int \<Rightarrow> world \<Rightarrow> string list option \<times> world" where
  "fetch_pubmed_data env query max_results w =
     (let base_url = ''https://eutils.ncbi.nlm.nih.gov/entrez/eutils/esearch.fcgi'';
          params = [(''db'', ''pubmed''), (''term'', query),
                    (''retmax'', str_int max_results), (''retmode'', ''json'')];
          w1 = w\<lparr>requests := requests w @ [(base_url, params)]\<rparr>
      in case esearch env params of
           RequestException e \<Rightarrow> (None, py_print (''Error fetching PubMed data: '' @ e) w1)
         | Response data \<Rightarrow>
             (Some (case data of
                      None \<Rightarrow> []
                    | Some esearchresult \<Rightarrow>
                        (case esearchresult of None \<Rightarrow> [] | Some idlist \<Rightarrow> idlist)), w1))"

definition fetch_paper_details :: "env \<Rightarrow> string list \<Rightarrow> world \<Rightarrow> string option \<times> world" where
  "fetch_paper_details env pubmed_ids w =
     (let base_url = ''https://eutils.ncbi.nlm.nih.gov/entrez/eutils/efetch.fcgi'';
          params = [(''db'', ''pubmed''), (''id'', join '','' pubmed_ids), (''retmode'', ''xml'')];
          w1 = w\<lparr>requests := requests w @ [(base_url, params)]\<rparr>
      in case efetch env params of
           RequestException e \<Rightarrow> (None, py_print (''Error fetching paper details: '' @ e) w1)
         | Response body \<Rightarrow> (Some body, w1))"

record args =
  args_query :: string
  args_file :: string
  args_number :: int

text \<open>\<open>main\<close> (lines 110-128), from the parsed arguments on. An empty list, an empty
  string and \<open>None\<close> are all false in an \<open>if\<close>.\<close>

definition main :: "env \<Rightarrow> args \<Rightarrow> world \<Rightarrow> error option \<times> world" where
  "main env a w =
     (let w1 = py_print (''Fetching papers for query: '' @ args_query a) w;
          (pubmed_ids, w2) = fetch_pubmed_data env (args_query a) (args_number a) w1
      in case pubmed_ids of
           Some (i # ids) \<Rightarrow>
             (let w3 = py_print (''Found '' @ str_nat (length (i # ids)) @ '' papers.'') w2;
                  (xml_data, w4) = fetch_paper_details env (i # ids) w3
              in case xml_data of
                   Some (c # cs) \<Rightarrow>
                     (case parse_paper_details (et_fromstring env) (c # cs) of
                        Inl e \<Rightarrow> (Some e, w4)
                      | Inr parsed_data \<Rightarrow> save_to_csv parsed_data (args_file a) w4)
                 | _ \<Rightarrow> (None, py_print ''Failed to fetch paper details.'' w4))
         | _ \<Rightarrow> (None, py_print ''No papers found for the query.'' w2))"

section \<open>Views of an article used to state the properties\<close>

text \<open>The affiliation text of an author, when an affiliation node is found and has text.\<close>

definition affiliation_text :: "element \<Rightarrow> string option" where
  "affiliation_text author =
     (case affiliation_of author of None \<Rightarrow> None | Some affiliation \<Rightarrow> etext affiliation)"

definition has_keyword :: "string \<Rightarrow> bool" where
  "has_keyword t = list_ex (\<lambda>keyword. contains (lower t) keyword) company_keywords"

definition is_non_academic :: "element \<Rightarrow> bool" where
  "is_non_academic author =
     (case affiliation_text author of None \<Rightarrow> False | Some t \<Rightarrow> has_keyword t)"

text \<open>The emails collected from one author: none or one.\<close>

definition emails_of :: "element \<Rightarrow> string list" where
  "emails_of author =
     (case affiliation_text author of
        None \<Rightarrow> []
      | Some t \<Rightarrow> if CHR ''@'' \<in> set t then [last (split t)] else [])"

definition company_affiliations_of :: "element \<Rightarrow> string list" where
  "company_affiliations_of author =
     (case affiliation_text author of
        None \<Rightarrow> []
      | Some t \<Rightarrow> if has_keyword t then [t] else [])"

text \<open>The record of an article, field by field.\<close>

definition record_of :: "element \<Rightarrow> paper" where
  "record_of article =
     (let as = findall_descendant ''Author'' article
      in [(''PubMedID'', findtext (findall_descendant ''PMID'' article)),
          (''Title'', findtext (findall_descendant ''ArticleTitle'' article)),
          (''Publication Date'', Some (publication_date article)),
          (''Authors'', Some (join '', '' (map fullname_of as))),
          (''Non-academic Authors'', Some (join '', '' (map fullname_of (filter is_non_academic as)))),
          (''Company Affiliations'', Some (join ''; '' (concat (map company_affiliations_of as)))),
          (''Email'', Some (case concat (map emails_of as) of
                              [] \<Rightarrow> ''Not Available'' | e # _ \<Rightarrow> e))])"

text \<open>No author of an article of the document has an affiliation node without text.\<close>

definition text_present :: "element \<Rightarrow> bool" where
  "text_present author =
     (case affiliation_of author of None \<Rightarrow> True | Some affiliation \<Rightarrow> etext affiliation \<noteq> None)"

definition texts_present :: "element \<Rightarrow> bool" where
  "texts_present root =
     list_all (\<lambda>article. list_all text_present (findall_descendant ''Author'' article))
       (findall_descendant ''PubmedArticle'' root)"

section \<open>Example documents\<close>

definition jane_affiliation :: element where
  "jane_affiliation = Element ''Affiliation'' (Some ''Jane Doe, Acme Biotech Inc, jane@acme.com'') []"

definition jane :: element where
  "jane = Element ''Author'' None
     [Element ''LastName'' (Some ''Doe'') [], Element ''ForeName'' (Some ''Jane'') [],
      Element ''AffiliationInfo'' None [jane_affiliation]]"

definition article_2020 :: element where
  "article_2020 = Element ''PubmedArticle'' None
     [Element ''PMID'' (Some ''101'') [], Element ''ArticleTitle'' (Some ''A study'') [],
      Element ''PubDate'' None [Element ''Year'' (Some ''2020'') []]]"

definition empty_article :: element where
  "empty_article = Element ''PubmedArticle'' None []"


definition doc_empty_affiliation :: element where
  "doc_empty_affiliation = Element ''PubmedArticleSet'' None
     [Element ''PubmedArticle'' None
        [Element ''Author'' None
           [Element ''LastName'' (Some ''Doe'') [],
            Element ''AffiliationInfo'' None [Element ''Affiliation'' None []]]]]"

definition doc_two_articles :: element where
  "doc_two_articles = Element ''PubmedArticleSet'' None
     [article_2020,
      Element ''PubmedArticle'' None
        [Element ''Author'' None
           [Element ''AffiliationInfo'' None
              [Element ''Affiliation'' None [Element ''sup'' (Some ''1'') []]]]]]"

definition doc_empty_article :: element where
  "doc_empty_article = Element ''PubmedArticleSet'' None [empty_article]"

definition doc_two_records :: element where
  "doc_two_records = Element ''PubmedArticleSet'' None
     [article_2020,
      Element ''PubmedArticle'' None
        [Element ''PMID'' None []]]"

text \<open>The XML text of four of the documents and one text that is not well-formed (its
  root element is never closed). \<open>fromstring_examples\<close> is \<open>ET.fromstring\<close> on these
  five texts, the only ones it is applied to.\<close>

definition xml_empty_article :: string where
  "xml_empty_article = ''<PubmedArticleSet><PubmedArticle/></PubmedArticleSet>''"

definition xml_empty_affiliation :: string where
  "xml_empty_affiliation =
     ''<PubmedArticleSet><PubmedArticle><Author><LastName>Doe</LastName>''
     @ ''<AffiliationInfo><Affiliation/></AffiliationInfo></Author></PubmedArticle>''
     @ ''</PubmedArticleSet>''"

definition xml_two_articles :: string where
  "xml_two_articles =
     ''<PubmedArticleSet><PubmedArticle><PMID>101</PMID><ArticleTitle>A study</ArticleTitle>''
     @ ''<PubDate><Year>2020</Year></PubDate></PubmedArticle><PubmedArticle><Author>''
     @ ''<AffiliationInfo><Affiliation><sup>1</sup>Acme Pharma</Affiliation></AffiliationInfo>''
     @ ''</Author></PubmedArticle></PubmedArticleSet>''"

definition xml_two_records :: string where
  "xml_two_records =
     ''<PubmedArticleSet><PubmedArticle><PMID>101</PMID><ArticleTitle>A study</ArticleTitle>''
     @ ''<PubDate><Year>2020</Year></PubDate></PubmedArticle><PubmedArticle><PMID/>''
     @ ''</PubmedArticle></PubmedArticleSet>''"

definition xml_unclosed :: string where
  "xml_unclosed = ''<PubmedArticleSet><PubmedArticle>''"

definition fromstring_examples :: "string \<Rightarrow> element option" where
  "fromstring_examples =
     map_of [(xml_empty_article, doc_empty_article),
             (xml_empty_affiliation, doc_empty_affiliation),
             (xml_two_articles, doc_two_articles),
             (xml_two_records, doc_two_records)]"

text \<open>Two records, the text of a file, a world with an empty working directory (a name
  can be opened for writing when it is not empty and names no directory), and a run in
  which the search finds nothing.\<close>

definition paper_empty_article :: paper where
  "paper_empty_article =
     [(''PubMedID'', None), (''Title'', None), (''Publication Date'', Some ''Unknown''),
      (''Authors'', Some ''''), (''Non-academic Authors'', Some ''''),
      (''Company Affiliations'', Some ''''), (''Email'', Some ''Not Available'')]"

definition paper_two_authors :: paper where
  "paper_two_authors =
     [(''PubMedID'', Some ''102''), (''Title'', Some ''Drugs, \"old\" and new''),
      (''Publication Date'', Some ''2021-Mar-''),
      (''Authors'', Some ''Ann Lee, Bob Ray''), (''Non-academic Authors'', Some ''Bob Ray''),
      (''Company Affiliations'', Some ''Acme Pharma Ltd, bob@acme.com''),
      (''Email'', Some ''bob@acme.com'')]"

definition csv_empty_article :: string where
  "csv_empty_article =
     ''PubMedID,Title,Publication Date,Authors,Non-academic Authors,Company Affiliations,Email''
     @ [CR, LF] @ '',,Unknown,,,,Not Available'' @ [CR, LF]"

definition world0 :: world where
  "world0 = \<lparr>files = Map.empty, writable = (\<lambda>name. name \<noteq> [] \<and> CHR ''/'' \<notin> set name),
              stdout = [], requests = []\<rparr>"

definition env_no_results :: env where
  "env_no_results =
     \<lparr>esearch = (\<lambda>params. Response (Some (Some []))),
      efetch = (\<lambda>params. RequestException ''not reached''),
      et_fromstring = (\<lambda>xml_data. None)\<rparr>"

definition args_example :: args where
  "args_example = \<lparr>args_query = ''no such topic'', args_file = ''results.csv'', args_number = 10\<rparr>"

text \<open>The state in which the reader is after the text of a field \<open>f\<close> written by \<open>join_append\<close>.\<close>

definition field_end_state :: "string \<Rightarrow> parse_state" where
  "field_end_state f = (if list_ex special f then QUOTE_IN_QUOTED_FIELD else if f = [] then START_FIELD else IN_FIELD)"

section \<open>The string functions\<close>

text \<open>\<open>contains\<close> is the substring test, and the words of \<open>split\<close> are non-empty and
  free of whitespace.\<close>

lemma startswith_iff: "startswith s p \<longleftrightarrow> (\<exists>ss. s = p @ ss)"
  by (induction s p rule: startswith.induct) auto

lemma contains_iff: "contains s sub \<longleftrightarrow> (\<exists>ps ss. s = ps @ sub @ ss)"
proof (induction s)
  case Nil
  then show ?case by simp
next
  case (Cons c cs)
  have "(\<exists>ps ss. c # cs = ps @ sub @ ss) \<longleftrightarrow>
        (\<exists>ss. c # cs = sub @ ss) \<or> (\<exists>ps ss. cs = ps @ sub @ ss)"
  proof
    assume "\<exists>ps ss. c # cs = ps @ sub @ ss"
    then obtain ps ss where e: "c # cs = ps @ sub @ ss" by blast
    show "(\<exists>ss. c # cs = sub @ ss) \<or> (\<exists>ps ss. cs = ps @ sub @ ss)"
    proof (cases ps)
      case Nil
      with e show ?thesis by auto
    next
      case (Cons p ps')
      with e have "cs = ps' @ sub @ ss" by simp
      then show ?thesis by blast
    qed
  next
    assume "(\<exists>ss. c # cs = sub @ ss) \<or> (\<exists>ps ss. cs = ps @ sub @ ss)"
    then show "\<exists>ps ss. c # cs = ps @ sub @ ss"
    proof
      assume "\<exists>ss. c # cs = sub @ ss"
      then obtain ss where "c # cs = [] @ sub @ ss" by auto
      then show ?thesis by blast
    next
      assume "\<exists>ps ss. cs = ps @ sub @ ss"
      then obtain ps ss where "c # cs = (c # ps) @ sub @ ss" by auto
      then show ?thesis by blast
    qed
  qed
  with Cons show ?case by (simp add: startswith_iff)
qed

lemma split_from_words:
  "\<forall>c\<in>set w. \<not> isspace c \<Longrightarrow> x \<in> set (split_from w s) \<Longrightarrow>
     x \<noteq> [] \<and> (\<forall>c\<in>set x. \<not> isspace c)"
proof (induction s arbitrary: w)
  case Nil
  then show ?case by (auto split: if_splits)
next
  case (Cons c s)
  show ?case
  proof (cases "isspace c")
    case True
    with Cons.prems have "x = w \<and> w \<noteq> [] \<or> x \<in> set (split_from [] s)"
      by (auto split: if_splits)
    then show ?thesis using Cons.prems(1) Cons.IH [of "[]"] by auto
  next
    case False
    with Cons.prems have "x \<in> set (split_from (w @ [c]) s)" by simp
    then show ?thesis using Cons.IH [of "w @ [c]"] Cons.prems(1) False by auto
  qed
qed

lemma split_words: "x \<in> set (split s) \<Longrightarrow> x \<noteq> [] \<and> (\<forall>c\<in>set x. \<not> isspace c)"
  unfolding split_def using split_from_words [of "[]" x s] by simp

section \<open>Extraction: what the loops compute\<close>

lemma contains_single: "contains s [c] \<longleftrightarrow> c \<in> set s"
  by (induction s) auto

lemma split_from_nonempty: "w \<noteq> [] \<or> (\<exists>c\<in>set s. \<not> isspace c) \<Longrightarrow> split_from w s \<noteq> []"
  by (induction s arbitrary: w) auto

lemma not_isspace_at: "\<not> isspace (CHR ''@'')"
  by (simp add: isspace_def whitespace_def)

lemma split_nonempty_at: "CHR ''@'' \<in> set t \<Longrightarrow> split t \<noteq> []"
  unfolding split_def using split_from_nonempty not_isspace_at by blast

lemma author_step_text:
  assumes "affiliation_of author = Some affiliation" and "etext affiliation = Some t"
  shows "author_step ls author = Inr (ls\<lparr>
           authors := authors ls @ [fullname_of author],
           emails := emails ls @ (if CHR ''@'' \<in> set t then [last (split t)] else []),
           non_academic_authors := non_academic_authors ls @
             (if has_keyword t then [fullname_of author] else []),
           company_affiliations := company_affiliations ls @ (if has_keyword t then [t] else [])\<rparr>)"
proof (cases "CHR ''@'' \<in> set t")
  case True
  then obtain w ws where "split t = w # ws"
    using split_nonempty_at by (cases "split t") auto
  with True assms show ?thesis
    by (simp add: author_step_def Let_def contains_single has_keyword_def)
next
  case False
  with assms show ?thesis
    by (simp add: author_step_def Let_def contains_single has_keyword_def)
qed

lemma author_step_no_affiliation:
  "affiliation_of author = None \<Longrightarrow>
     author_step ls author = Inr (ls\<lparr>authors := authors ls @ [fullname_of author]\<rparr>)"
  by (simp add: author_step_def Let_def)

lemma author_step_no_text:
  "affiliation_of author = Some affiliation \<Longrightarrow> etext affiliation = None \<Longrightarrow>
     author_step ls author = Inl TypeError"
  by (simp add: author_step_def Let_def)

lemma author_step_present:
  assumes "text_present author"
  shows "author_step ls author = Inr (ls\<lparr>
           authors := authors ls @ [fullname_of author],
           emails := emails ls @ emails_of author,
           non_academic_authors := non_academic_authors ls @
             map fullname_of (filter is_non_academic [author]),
           company_affiliations := company_affiliations ls @ company_affiliations_of author\<rparr>)"
proof (cases "affiliation_of author")
  case None
  then show ?thesis
    by (simp add: author_step_no_affiliation emails_of_def is_non_academic_def
          company_affiliations_of_def affiliation_text_def)
next
  case (Some affiliation)
  with assms obtain t where "etext affiliation = Some t"
    by (auto simp: text_present_def)
  with Some show ?thesis
    by (simp add: author_step_text emails_of_def is_non_academic_def
          company_affiliations_of_def affiliation_text_def)
qed

lemma author_step_absent: "\<not> text_present author \<Longrightarrow> author_step ls author = Inl TypeError"
  by (auto simp: text_present_def author_step_no_text split: option.splits)

lemma author_loop_present:
  "list_all text_present as \<Longrightarrow>
     author_loop ls as = Inr (ls\<lparr>
       authors := authors ls @ map fullname_of as,
       emails := emails ls @ concat (map emails_of as),
       non_academic_authors := non_academic_authors ls @ map fullname_of (filter is_non_academic as),
       company_affiliations := company_affiliations ls @ concat (map company_affiliations_of as)\<rparr>)"
proof (induction as arbitrary: ls)
  case Nil
  then show ?case by simp
next
  case (Cons a as)
  then show ?case by (simp add: author_step_present)
qed

lemma author_loop_absent:
  "\<not> list_all text_present as \<Longrightarrow> author_loop ls as = Inl TypeError"
proof (induction as arbitrary: ls)
  case Nil
  then show ?case by simp
next
  case (Cons a as)
  then show ?case
    by (cases "text_present a") (simp_all add: author_step_present author_step_absent)
qed

lemma article_paper_present:
  "list_all text_present (findall_descendant ''Author'' article) \<Longrightarrow>
     article_paper article = Inr (record_of article)"
  by (simp add: article_paper_def author_loop_present no_authors_def record_of_def Let_def)

lemma article_paper_absent:
  "\<not> list_all text_present (findall_descendant ''Author'' article) \<Longrightarrow>
     article_paper article = Inl TypeError"
  by (simp add: article_paper_def author_loop_absent Let_def)

lemma article_paper_cases:
  "article_paper article =
     (if list_all text_present (findall_descendant ''Author'' article)
      then Inr (record_of article) else Inl TypeError)"
  by (simp add: article_paper_present article_paper_absent)

lemma article_loop_eq:
  "article_loop papers articles =
     (if list_all (\<lambda>article. list_all text_present (findall_descendant ''Author'' article)) articles
      then Inr (papers @ map record_of articles) else Inl TypeError)"
  by (induction articles arbitrary: papers) (simp_all add: article_paper_cases)

lemma parse_paper_details_eq:
  "parse_paper_details fromstring xml_data =
     (case fromstring xml_data of
        None \<Rightarrow> Inl ParseError
      | Some root \<Rightarrow>
          if texts_present root then Inr (map record_of (findall_descendant ''PubmedArticle'' root))
          else Inl TypeError)"
  by (simp add: parse_paper_details_def article_loop_eq texts_present_def split: option.splits)

lemma findtext_None: "findtext es = None \<longleftrightarrow> es = []"
  by (cases es) (simp_all add: findtext_def first_match_def split: option.splits)



lemma parse_malformed:
  "fromstring xml_data = None \<Longrightarrow> parse_paper_details fromstring xml_data = Inl ParseError"
  by (simp add: parse_paper_details_def)

lemma parse_error_cases:
  "parse_paper_details fromstring xml_data = Inl e \<Longrightarrow>
     (e = ParseError \<and> fromstring xml_data = None)
     \<or> (e = TypeError \<and> (\<exists>root. fromstring xml_data = Some root \<and> \<not> texts_present root))"
  by (auto simp: parse_paper_details_eq split: option.splits if_splits)

section \<open>The reader reads back what the writer wrote\<close>

lemma read_plain:
  "\<forall>c\<in>set f. \<not> special c \<Longrightarrow> state r = IN_FIELD \<Longrightarrow>
     foldl parse_process_char r f = r\<lparr>field := field r @ f\<rparr>"
proof (induction f arbitrary: r)
  case Nil
  then show ?case by simp
next
  case (Cons c f)
  from Cons.prems have step: "parse_process_char r c = r\<lparr>field := field r @ [c]\<rparr>"
    by (simp add: parse_process_char_def special_def)
  have "foldl parse_process_char (r\<lparr>field := field r @ [c]\<rparr>) f
        = (r\<lparr>field := field r @ [c]\<rparr>)\<lparr>field := field (r\<lparr>field := field r @ [c]\<rparr>) @ f\<rparr>"
    using Cons.prems by (intro Cons.IH) simp_all
  with step show ?case by simp
qed

lemma read_quoted:
  "state r = IN_QUOTED_FIELD \<Longrightarrow>
     foldl parse_process_char r (double_quotes f) = r\<lparr>field := field r @ f\<rparr>"
proof (induction f arbitrary: r)
  case Nil
  then show ?case by (simp add: double_quotes_def)
next
  case (Cons c f)
  let ?r = "r\<lparr>field := field r @ [c]\<rparr>"
  have step: "foldl parse_process_char r (if c = quotechar then [quotechar, quotechar] else [c]) = ?r"
    using Cons.prems by (simp add: parse_process_char_def)
  have "foldl parse_process_char ?r (double_quotes f) = ?r\<lparr>field := field ?r @ f\<rparr>"
    using Cons.prems by (intro Cons.IH) simp
  moreover have "double_quotes (c # f) = (if c = quotechar then [quotechar, quotechar] else [c]) @ double_quotes f"
    by (simp add: double_quotes_def)
  ultimately show ?case using step by (simp del: foldl_Cons)
qed

lemma read_field:
  assumes "state r = START_FIELD" "field r = []"
  shows "foldl parse_process_char r (join_append f) = r\<lparr>field := f, state := field_end_state f\<rparr>"
proof (cases "list_ex special f")
  case True
  let ?q = "r\<lparr>state := IN_QUOTED_FIELD\<rparr>"
  have open_q: "parse_process_char r quotechar = ?q"
    using assms by (simp add: parse_process_char_def start_field_def)
  have body: "foldl parse_process_char ?q (double_quotes f) = ?q\<lparr>field := field ?q @ f\<rparr>"
    by (rule read_quoted) simp
  have close_q: "parse_process_char (?q\<lparr>field := field ?q @ f\<rparr>) quotechar
                 = r\<lparr>field := f, state := QUOTE_IN_QUOTED_FIELD\<rparr>"
    using assms by (simp add: parse_process_char_def)
  have "foldl parse_process_char r (join_append f)
        = parse_process_char (foldl parse_process_char (parse_process_char r quotechar) (double_quotes f)) quotechar"
    using True by (simp add: join_append_def)
  then show ?thesis using True
    by (simp only: open_q body close_q field_end_state_def if_True)
next
  case False
  show ?thesis
  proof (cases f)
    case Nil
    with False assms show ?thesis by (simp add: join_append_def field_end_state_def)
  next
    case (Cons c cs)
    with False have ns: "\<not> special c" "\<forall>x\<in>set cs. \<not> special x"
      by (simp_all add: list_ex_iff)
    let ?p = "r\<lparr>field := [c], state := IN_FIELD\<rparr>"
    have "parse_process_char r c = ?p"
      using assms ns(1) by (simp add: parse_process_char_def start_field_def special_def)
    moreover have "foldl parse_process_char ?p cs = ?p\<lparr>field := field ?p @ cs\<rparr>"
      using ns(2) by (intro read_plain) simp_all
    ultimately show ?thesis using False Cons
      by (simp add: join_append_def field_end_state_def)
  qed
qed


lemma end_field_delimiter:
  "state r \<in> {START_FIELD, IN_FIELD, QUOTE_IN_QUOTED_FIELD} \<Longrightarrow>
     parse_process_char r delimiter = (parse_save_field r)\<lparr>state := START_FIELD\<rparr>"
  by (auto simp: parse_process_char_def start_field_def)

lemma end_field_CR:
  "state r \<in> {START_FIELD, IN_FIELD, QUOTE_IN_QUOTED_FIELD} \<Longrightarrow>
     parse_process_char r CR = end_record EAT_CRNL (parse_save_field r)"
  by (auto simp: parse_process_char_def start_field_def)

lemma field_end_state_cases:
  "field_end_state f \<in> {START_FIELD, IN_FIELD, QUOTE_IN_QUOTED_FIELD}"
  by (simp add: field_end_state_def)

lemma read_fields:
  assumes "state r = START_FIELD" "field r = []"
  shows "foldl parse_process_char r (join [delimiter] (map join_append (f # fs)))
         = r\<lparr>record_fields := record_fields r @ butlast (f # fs), field := last (f # fs),
               state := field_end_state (last (f # fs))\<rparr>"
  using assms
proof (induction fs arbitrary: r f)
  case Nil
  then show ?case by (simp add: read_field)
next
  case (Cons g gs)
  let ?a = "r\<lparr>field := f, state := field_end_state f\<rparr>"
  let ?b = "(parse_save_field ?a)\<lparr>state := START_FIELD\<rparr>"
  have a: "foldl parse_process_char r (join_append f) = ?a"
    using Cons.prems by (rule read_field)
  have b: "parse_process_char ?a delimiter = ?b"
    by (rule end_field_delimiter) (use field_end_state_cases [of f] in simp)
  have c: "foldl parse_process_char ?b (join [delimiter] (map join_append (g # gs)))
           = ?b\<lparr>record_fields := record_fields ?b @ butlast (g # gs), field := last (g # gs),
                 state := field_end_state (last (g # gs))\<rparr>"
    by (rule Cons.IH) (simp_all add: parse_save_field_def)
  have "foldl parse_process_char r (join [delimiter] (map join_append (f # g # gs)))
        = foldl parse_process_char (parse_process_char (foldl parse_process_char r (join_append f)) delimiter)
            (join [delimiter] (map join_append (g # gs)))"
    by simp
  also have "\<dots> = ?b\<lparr>record_fields := record_fields ?b @ butlast (g # gs), field := last (g # gs),
                 state := field_end_state (last (g # gs))\<rparr>"
    by (simp only: a b c)
  finally show ?case by (simp add: parse_save_field_def)
qed


lemma start_record_as_field:
  "state r = START_RECORD \<Longrightarrow> c \<noteq> CR \<Longrightarrow> c \<noteq> LF \<Longrightarrow>
     parse_process_char r c = parse_process_char (r\<lparr>state := START_FIELD\<rparr>) c"
  by (simp add: parse_process_char_def start_record_def start_field_def parse_save_field_def)

lemma join_append_hd:
  "f \<noteq> [] \<Longrightarrow> \<exists>c cs. join_append f = c # cs \<and> c \<noteq> CR \<and> c \<noteq> LF"
  by (cases f) (auto simp: join_append_def special_def)

lemma join_Cons: "join sep (x # xs) = x @ (if xs = [] then [] else sep @ join sep xs)"
  by (cases xs) simp_all

lemma line_hd:
  assumes "f # fs \<noteq> [[]]"
  shows "\<exists>c cs. join [delimiter] (map join_append (f # fs)) = c # cs \<and> c \<noteq> CR \<and> c \<noteq> LF"
proof (cases "f = []")
  case True
  with assms have "fs \<noteq> []" by simp
  with True show ?thesis by (simp add: join_Cons join_append_def)
next
  case False
  then obtain c cs where "join_append f = c # cs" "c \<noteq> CR" "c \<noteq> LF"
    using join_append_hd by blast
  then show ?thesis by (simp add: join_Cons)
qed

lemma read_row:
  assumes "state r = START_RECORD" "field r = []" "record_fields r = []"
  shows "foldl parse_process_char r (writerow row) = r\<lparr>rows := rows r @ [map field_str row]\<rparr>"
proof -
  consider (empty) "map field_str row = []" | (single) "map field_str row = [[]]"
    | (fields) f fs where "map field_str row = f # fs" "f # fs \<noteq> [[]]"
    by (cases "map field_str row") auto
  then show ?thesis
  proof cases
    case empty
    with assms show ?thesis
      by (cases r) (simp add: writerow_def parse_process_char_def start_record_def end_record_def)
  next
    case single
    with assms show ?thesis
      by (cases r) (simp add: writerow_def parse_process_char_def start_record_def start_field_def
            end_record_def parse_save_field_def)
  next
    case fields
    let ?s = "join [delimiter] (map join_append (f # fs))"
    let ?r = "r\<lparr>state := START_FIELD\<rparr>"
    let ?e = "?r\<lparr>record_fields := record_fields ?r @ butlast (f # fs), field := last (f # fs),
                 state := field_end_state (last (f # fs))\<rparr>"
    obtain c cs where s: "?s = c # cs" "c \<noteq> CR" "c \<noteq> LF"
      using line_hd [OF fields(2)] by blast
    have "foldl parse_process_char r ?s = foldl parse_process_char ?r ?s"
      unfolding s(1) using start_record_as_field [OF assms(1) s(2,3)] by simp
    also have "\<dots> = ?e"
      using assms by (intro read_fields) simp_all
    finally have body: "foldl parse_process_char r ?s = ?e" .
    have cr: "parse_process_char ?e CR = end_record EAT_CRNL (parse_save_field ?e)"
      by (rule end_field_CR) (use field_end_state_cases [of "last (f # fs)"] in simp)
    have "writerow row = ?s @ [CR, LF]"
      using fields by (auto simp: writerow_def)
    then have "foldl parse_process_char r (writerow row)
          = parse_process_char (parse_process_char (foldl parse_process_char r ?s) CR) LF"
      by (simp del: join.simps list.map)
    also have "\<dots> = parse_process_char (end_record EAT_CRNL (parse_save_field ?e)) LF"
      by (simp only: body cr)
    also have "\<dots> = r\<lparr>rows := rows r @ [f # fs]\<rparr>"
    proof (rule reader.equality)
      show "record_fields (parse_process_char (end_record EAT_CRNL (parse_save_field ?e)) LF)
            = record_fields (r\<lparr>rows := rows r @ [f # fs]\<rparr>)"
        using assms by (simp add: parse_process_char_def end_record_def parse_save_field_def)
      show "rows (parse_process_char (end_record EAT_CRNL (parse_save_field ?e)) LF)
            = rows (r\<lparr>rows := rows r @ [f # fs]\<rparr>)"
        using assms append_butlast_last_id [of "f # fs"]
        by (simp add: parse_process_char_def end_record_def parse_save_field_def
              del: butlast.simps last.simps)
    qed (use assms in \<open>simp_all add: parse_process_char_def end_record_def parse_save_field_def\<close>)
    finally show ?thesis using fields by simp
  qed
qed

lemma read_rows:
  assumes "state r = START_RECORD" "field r = []" "record_fields r = []"
  shows "foldl parse_process_char r (concat (map writerow table))
         = r\<lparr>rows := rows r @ map (map field_str) table\<rparr>"
  using assms
proof (induction table arbitrary: r)
  case Nil
  then show ?case by simp
next
  case (Cons row table)
  let ?r = "r\<lparr>rows := rows r @ [map field_str row]\<rparr>"
  have "foldl parse_process_char ?r (concat (map writerow table))
        = ?r\<lparr>rows := rows ?r @ map (map field_str) table\<rparr>"
    using Cons.prems by (intro Cons.IH) simp_all
  then show ?case using read_row [OF Cons.prems] by simp
qed

lemma csv_reader_writerow:
  "csv_reader (concat (map writerow table)) = map (map field_str) table"
  by (simp add: csv_reader_def read_rows reader_start_def reader_finish_def)

section \<open>The writer and the pipeline\<close>

lemma distinct_fixed_keys: "distinct fixed_keys"
  by (simp add: fixed_keys_def)

lemma map_of_values:
  "distinct (map fst rowdict) \<Longrightarrow>
     map (\<lambda>key. case map_of rowdict key of None \<Rightarrow> Some [] | Some v \<Rightarrow> v) (map fst rowdict)
     = map snd rowdict"
proof (induction rowdict)
  case Nil
  then show ?case by simp
next
  case (Cons kv rowdict)
  obtain k v where kv: "kv = (k, v)" by (cases kv)
  from Cons.prems kv have "k \<notin> fst ` set rowdict" by simp
  then have "map (\<lambda>key. case map_of (kv # rowdict) key of None \<Rightarrow> Some [] | Some v \<Rightarrow> v) (map fst rowdict)
           = map (\<lambda>key. case map_of rowdict key of None \<Rightarrow> Some [] | Some v \<Rightarrow> v) (map fst rowdict)"
    using kv by (intro map_cong) auto
  with Cons kv show ?case by simp
qed

lemma dict_to_list_keys:
  "map fst rowdict = fieldnames \<Longrightarrow> distinct fieldnames \<Longrightarrow>
     dict_to_list fieldnames rowdict = Inr (map snd rowdict)"
  using map_of_values [of rowdict] by (auto simp: dict_to_list_def list_ex_iff)

lemma writerows_keys:
  "\<forall>rowdict\<in>set rowdicts. map fst rowdict = fieldnames \<Longrightarrow> distinct fieldnames \<Longrightarrow>
     writerows fieldnames out rowdicts = (None, out @ concat (map (\<lambda>d. writerow (map snd d)) rowdicts))"
  by (induction rowdicts arbitrary: out) (simp_all add: dict_to_list_keys)

lemma writerows_extends: "\<exists>rest. snd (writerows fieldnames out rowdicts) = out @ rest"
proof (induction rowdicts arbitrary: out)
  case Nil
  then show ?case by simp
next
  case (Cons d ds)
  show ?case
  proof (cases "dict_to_list fieldnames d")
    case (Inl e)
    then show ?thesis by simp
  next
    case (Inr row)
    from Cons.IH [of "out @ writerow row"] obtain rest
      where "snd (writerows fieldnames (out @ writerow row) ds) = (out @ writerow row) @ rest" ..
    with Inr show ?thesis by simp
  qed
qed

lemma save_to_csv_keys:
  assumes "parsed_data \<noteq> []" and "\<forall>paper\<in>set parsed_data. map fst paper = fixed_keys"
    and "writable w filename"
  shows "save_to_csv parsed_data filename w =
     (None, py_print (''Data saved to '' @ filename)
        (w\<lparr>files := (files w)(filename \<mapsto>
              concat (map writerow (map Some fixed_keys # map (map snd) parsed_data)))\<rparr>))"
  using assms
  by (simp add: save_to_csv_def writeheader_def writerows_keys distinct_fixed_keys Let_def comp_def)

lemma cli_save_to_csv_keys:
  assumes "parsed_data \<noteq> []" and "\<forall>paper\<in>set parsed_data. map fst paper = fixed_keys"
    and "writable w filename"
  shows "cli_save_to_csv parsed_data filename w =
     (None, py_print (''Data saved to '' @ filename)
        (w\<lparr>files := (files w)(filename \<mapsto>
              concat (map writerow (map Some fixed_keys # map (map snd) parsed_data)))\<rparr>))"
  using assms save_to_csv_keys [OF assms]
  by (cases parsed_data) (simp_all add: cli_save_to_csv_def save_to_csv_def)

lemma save_to_csv_not_writable:
  "parsed_data \<noteq> [] \<Longrightarrow> \<not> writable w filename \<Longrightarrow>
     save_to_csv parsed_data filename w = (Some OSError, w)
     \<and> cli_save_to_csv parsed_data filename w = (Some OSError, w)"
  by (cases parsed_data) (simp_all add: save_to_csv_def cli_save_to_csv_def)

lemma fetch_pubmed_data_result:
  "fst (fetch_pubmed_data env query max_results w) = fst (fetch_pubmed_data env query max_results w')"
  by (simp add: fetch_pubmed_data_def Let_def split: reply.splits)

lemma fetch_pubmed_data_world:
  "fst (fetch_pubmed_data env query max_results w) = Some ids \<Longrightarrow>
     snd (fetch_pubmed_data env query max_results w) =
       w\<lparr>requests := requests w @
           [(''https://eutils.ncbi.nlm.nih.gov/entrez/eutils/esearch.fcgi'',
             [(''db'', ''pubmed''), (''term'', query), (''retmax'', str_int max_results),
              (''retmode'', ''json'')])]\<rparr>"
  by (simp add: fetch_pubmed_data_def Let_def split: reply.splits)

text \<open>The definitions that evaluate the path functions and the string functions.\<close>

lemmas eval_find = first_match_def findall_descendant_child_def findall_descendant_def
  findall_child_def findtext_def findtext_or_def affiliation_of_def

lemmas eval_csv = writerow_def join_append_def double_quotes_def special_def field_str_def
  writeheader_def dict_to_list_def fixed_keys_def

section \<open>The claims\<close>





text \<open>
  C3. A well-formed document with K article nodes should give K records. The document
  \<open>xml_two_articles\<close> has two article nodes; in the second, the \<open>Affiliation\<close> node
  starts with a child element, so its text is \<open>None\<close> and \<open>"@" in affiliation_text\<close>
  raises \<open>TypeError\<close>: no record is returned, not even that of the first article.
  (\<open>parse_paper_details_eq\<close> gives the K records, in document order, for every
  document in which each affiliation node found has text.)
\<close>

theorem parse_two_articles_raises:
  "fromstring_examples xml_two_articles = Some doc_two_articles
   \<and> length (findall_descendant ''PubmedArticle'' doc_two_articles) = 2
   \<and> parse_paper_details fromstring_examples xml_two_articles = Inl TypeError"
proof -
  have a: "fromstring_examples xml_two_articles = Some doc_two_articles"
    by (simp add: fromstring_examples_def xml_two_articles_def xml_empty_article_def
          xml_empty_affiliation_def xml_two_records_def)
  have b: "\<not> texts_present doc_two_articles"
    by (simp add: texts_present_def text_present_def doc_two_articles_def article_2020_def eval_find)
  have c: "length (findall_descendant ''PubmedArticle'' doc_two_articles) = 2"
    by (simp add: doc_two_articles_def article_2020_def eval_find)
  show ?thesis using a b c by (simp add: parse_paper_details_eq)
qed

text \<open>
  C4. A well-formed document should never make the extraction fail. The document
  \<open>xml_empty_affiliation\<close> is well-formed and its only author has an empty
  \<open>Affiliation\<close> element: the extraction raises \<open>TypeError\<close>. The text
  \<open>xml_unclosed\<close> is not well-formed and gives \<open>ParseError\<close>. (\<open>parse_malformed\<close> and
  \<open>parse_error_cases\<close>: a document that is not well-formed gives \<open>ParseError\<close>, and an
  affiliation node without text is the only other way to fail.)
\<close>

theorem parse_empty_affiliation_raises:
  "fromstring_examples xml_empty_affiliation = Some doc_empty_affiliation
   \<and> parse_paper_details fromstring_examples xml_empty_affiliation = Inl TypeError
   \<and> fromstring_examples xml_unclosed = None
   \<and> parse_paper_details fromstring_examples xml_unclosed = Inl ParseError"
proof -
  have u: "fromstring_examples xml_unclosed = None"
    by (simp add: fromstring_examples_def xml_two_articles_def xml_empty_article_def
          xml_empty_affiliation_def xml_two_records_def xml_unclosed_def)
  have a: "fromstring_examples xml_empty_affiliation = Some doc_empty_affiliation"
    by (simp add: fromstring_examples_def xml_two_articles_def xml_empty_article_def
          xml_empty_affiliation_def xml_two_records_def)
  have b: "\<not> texts_present doc_empty_affiliation"
    by (simp add: texts_present_def text_present_def doc_empty_affiliation_def eval_find)
  show ?thesis using a b u by (simp add: parse_paper_details_eq)
qed






text \<open>
  C7, as stated, fails in its second half: a non-empty list of records does not always
  leave a file. In an empty working directory the name \<open>no_such_dir/out.csv\<close> cannot be
  opened; \<open>open\<close> raises, no handler catches it, and nothing is written or printed.
\<close>

theorem save_to_csv_open_fails:
  "save_to_csv [paper_two_authors] ''no_such_dir/out.csv'' world0 = (Some OSError, world0)
   \<and> cli_save_to_csv [paper_two_authors] ''no_such_dir/out.csv'' world0 = (Some OSError, world0)
   \<and> files world0 ''no_such_dir/out.csv'' = None"
  by (simp add: save_to_csv_def cli_save_to_csv_def world0_def)

text \<open>
  C7, amended. On the empty list of records both writers print \<open>No data to save.\<close> and
  leave every file as it was. On a non-empty list, when the name can be opened for
  writing both leave a file of that name, which starts with the header row; when it
  cannot, both raise the error of \<open>open\<close> and leave the files and the printed lines as
  they were.
\<close>

theorem save_to_csv_empty_or_written:
  "save_to_csv [] filename w = (None, w\<lparr>stdout := stdout w @ [''No data to save.'']\<rparr>)
   \<and> cli_save_to_csv [] filename w = (None, w\<lparr>stdout := stdout w @ [''No data to save.'']\<rparr>)
   \<and> files (snd (save_to_csv [] filename w)) = files w
   \<and> files (snd (cli_save_to_csv [] filename w)) = files w
   \<and> (parsed_data \<noteq> [] \<and> writable w filename \<longrightarrow>
        (\<exists>rest. files (snd (save_to_csv parsed_data filename w)) filename
                 = Some (writeheader fixed_keys @ rest))
      \<and> (\<exists>rest. files (snd (cli_save_to_csv parsed_data filename w)) filename
                 = Some (writeheader (map fst (hd parsed_data)) @ rest)))
   \<and> (parsed_data \<noteq> [] \<and> \<not> writable w filename \<longrightarrow>
        save_to_csv parsed_data filename w = (Some OSError, w)
      \<and> cli_save_to_csv parsed_data filename w = (Some OSError, w))"
proof -
  have written: "\<exists>rest. files (snd (save_to_csv parsed_data filename w)) filename
                   = Some (writeheader fixed_keys @ rest)"
    if "parsed_data \<noteq> []" "writable w filename"
  proof -
    obtain e out where r: "writerows fixed_keys (writeheader fixed_keys) parsed_data = (e, out)"
      by (cases "writerows fixed_keys (writeheader fixed_keys) parsed_data")
    obtain rest where "out = writeheader fixed_keys @ rest"
      using writerows_extends [of fixed_keys "writeheader fixed_keys" parsed_data] r by auto
    with r that show ?thesis
      by (cases e) (simp_all add: save_to_csv_def py_print_def)
  qed
  have cli_written: "\<exists>rest. files (snd (cli_save_to_csv parsed_data filename w)) filename
                   = Some (writeheader (map fst (hd parsed_data)) @ rest)"
    if "parsed_data \<noteq> []" "writable w filename"
  proof -
    from that obtain first others where p: "parsed_data = first # others"
      by (cases parsed_data) auto
    obtain e out where r: "writerows (map fst first) (writeheader (map fst first)) parsed_data = (e, out)"
      by (cases "writerows (map fst first) (writeheader (map fst first)) parsed_data")
    obtain rest where "out = writeheader (map fst first) @ rest"
      using writerows_extends [of "map fst first" "writeheader (map fst first)" parsed_data] r by auto
    with r p that show ?thesis
      by (cases e) (simp_all add: cli_save_to_csv_def py_print_def)
  qed
  show ?thesis using written cli_written save_to_csv_not_writable [of parsed_data w filename]
    by (simp add: save_to_csv_def cli_save_to_csv_def py_print_def)
qed

text \<open>In the empty working directory: one record under the name \<open>results.csv\<close> gives a
  file, under the name \<open>no_such_dir/out.csv\<close> the error; no record gives no file and the
  message.\<close>

theorem save_to_csv_empty_or_written_witness:
  "[paper_two_authors] \<noteq> [] \<and> writable world0 ''results.csv''
   \<and> (\<exists>rest. files (snd (save_to_csv [paper_two_authors] ''results.csv'' world0)) ''results.csv''
               = Some (writeheader fixed_keys @ rest))
   \<and> \<not> writable world0 ''no_such_dir/out.csv''
   \<and> fst (save_to_csv [paper_two_authors] ''no_such_dir/out.csv'' world0) = Some OSError
   \<and> files (snd (save_to_csv [] ''results.csv'' world0)) ''results.csv'' = None
   \<and> stdout (snd (save_to_csv [] ''results.csv'' world0)) = [''No data to save.'']"
proof -
  have a: "writable world0 ''results.csv''" by (simp add: world0_def)
  have b: "\<not> writable world0 ''no_such_dir/out.csv''" by (simp add: world0_def)
  show ?thesis
    using save_to_csv_empty_or_written [of "''results.csv''" world0 "[paper_two_authors]"]
      save_to_csv_empty_or_written [of "''no_such_dir/out.csv''" world0 "[paper_two_authors]"] a b
    by (simp add: world0_def)
qed

text \<open>
  C8, as stated, fails: a value \<open>None\<close> is written as an empty field and read back as the
  empty string, which is not the value of the record; and for no record at all there
  is no file to read back.
\<close>

theorem csv_none_read_back_empty:
  "files (snd (save_to_csv [paper_empty_article] ''results.csv'' world0)) ''results.csv''
     = Some csv_empty_article
   \<and> csv_reader csv_empty_article
     = [fixed_keys, ['''', '''', ''Unknown'', '''', '''', '''', ''Not Available'']]
   \<and> map snd paper_empty_article
     \<noteq> map Some ['''', '''', ''Unknown'', '''', '''', '''', ''Not Available'']
   \<and> files (snd (save_to_csv [] ''results.csv'' world0)) ''results.csv'' = None"
proof -
  have keys: "\<forall>paper\<in>set [paper_empty_article]. map fst paper = fixed_keys"
    by (simp add: paper_empty_article_def fixed_keys_def)
  have content: "concat (map writerow (map Some fixed_keys # map (map snd) [paper_empty_article]))
                 = csv_empty_article"
    by (simp add: paper_empty_article_def csv_empty_article_def eval_csv)
  have written: "files (snd (save_to_csv [paper_empty_article] ''results.csv'' world0)) ''results.csv''
                 = Some csv_empty_article"
    using save_to_csv_keys [OF _ keys, of world0 "''results.csv''"]
    by (simp add: content py_print_def world0_def del: list.map concat.simps)
  have "csv_reader (concat (map writerow (map Some fixed_keys # map (map snd) [paper_empty_article])))
        = map (map field_str) (map Some fixed_keys # map (map snd) [paper_empty_article])"
    by (rule csv_reader_writerow)
  then have read: "csv_reader csv_empty_article
        = [fixed_keys, ['''', '''', ''Unknown'', '''', '''', '''', ''Not Available'']]"
    unfolding content by (simp add: paper_empty_article_def field_str_def comp_def)
  have differ: "map snd paper_empty_article
     \<noteq> map Some ['''', '''', ''Unknown'', '''', '''', '''', ''Not Available'']"
    by (simp add: paper_empty_article_def)
  have none: "files (snd (save_to_csv [] ''results.csv'' world0)) ''results.csv'' = None"
    by (simp add: save_to_csv_def py_print_def world0_def)
  show ?thesis using written read differ none by simp
qed

text \<open>
  C8, amended. For a non-empty list of N records with the seven keys, written under a
  name that can be opened for writing, both writers succeed and write the same file,
  and reading that file back gives the header row and then N rows, the fields of each
  row equal to the values of the record, a value \<open>None\<close> read back as the empty string.
\<close>

theorem csv_round_trip:
  assumes "parsed_data \<noteq> []" and "\<forall>paper\<in>set parsed_data. map fst paper = fixed_keys"
    and "writable w filename"
  shows "\<exists>content.
           fst (save_to_csv parsed_data filename w) = None
         \<and> files (snd (save_to_csv parsed_data filename w)) filename = Some content
         \<and> fst (cli_save_to_csv parsed_data filename w) = None
         \<and> files (snd (cli_save_to_csv parsed_data filename w)) filename = Some content
         \<and> csv_reader content = fixed_keys # map (map (\<lambda>(key, v). field_str v)) parsed_data
         \<and> length (csv_reader content) = Suc (length parsed_data)"
proof -
  let ?table = "map Some fixed_keys # map (map snd) parsed_data"
  have "csv_reader (concat (map writerow ?table)) = map (map field_str) ?table"
    by (rule csv_reader_writerow)
  also have "\<dots> = fixed_keys # map (map (\<lambda>(key, v). field_str v)) parsed_data"
    by (simp add: field_str_def comp_def case_prod_unfold)
  finally have "csv_reader (concat (map writerow ?table))
                = fixed_keys # map (map (\<lambda>(key, v). field_str v)) parsed_data" .
  then show ?thesis
    using assms
    by (simp only: cli_save_to_csv_keys [OF assms] save_to_csv_keys [OF assms])
       (simp add: py_print_def)
qed

text \<open>Two records, one with commas and quotes in its values, one with \<open>None\<close> values.\<close>

theorem csv_round_trip_witness:
  "[paper_two_authors, paper_empty_article] \<noteq> []
   \<and> map fst paper_two_authors = fixed_keys \<and> map fst paper_empty_article = fixed_keys
   \<and> writable world0 ''results.csv''
   \<and> (\<exists>content.
         files (snd (save_to_csv [paper_two_authors, paper_empty_article] ''results.csv'' world0))
           ''results.csv'' = Some content
       \<and> csv_reader content =
           [fixed_keys,
            [''102'', ''Drugs, \"old\" and new'', ''2021-Mar-'', ''Ann Lee, Bob Ray'', ''Bob Ray'',
             ''Acme Pharma Ltd, bob@acme.com'', ''bob@acme.com''],
            ['''', '''', ''Unknown'', '''', '''', '''', ''Not Available'']])"
proof -
  have a: "[paper_two_authors, paper_empty_article] \<noteq> []" by simp
  have b: "\<forall>paper\<in>set [paper_two_authors, paper_empty_article]. map fst paper = fixed_keys"
    by (simp add: paper_two_authors_def paper_empty_article_def fixed_keys_def)
  have c: "writable world0 ''results.csv''" by (simp add: world0_def)
  show ?thesis
    using csv_round_trip [OF a b c] a b c
    by (auto simp: paper_two_authors_def paper_empty_article_def field_str_def)
qed

text \<open>
  C9. When the search returns the empty list of identifiers, \<open>main\<close> ends without an
  error, has printed \<open>No papers found for the query.\<close> after its first line, has sent
  the search request and no other, and has changed no file.
\<close>

theorem main_no_papers:
  assumes "fst (fetch_pubmed_data env (args_query a) (args_number a) w) = Some []"
  shows "fst (main env a w) = None
       \<and> stdout (snd (main env a w)) =
           stdout w @ [''Fetching papers for query: '' @ args_query a,
                       ''No papers found for the query.'']
       \<and> requests (snd (main env a w)) =
           requests w @
             [(''https://eutils.ncbi.nlm.nih.gov/entrez/eutils/esearch.fcgi'',
               [(''db'', ''pubmed''), (''term'', args_query a),
                (''retmax'', str_int (args_number a)), (''retmode'', ''json'')])]
       \<and> files (snd (main env a w)) = files w"
proof -
  let ?w1 = "py_print (''Fetching papers for query: '' @ args_query a) w"
  have r: "fst (fetch_pubmed_data env (args_query a) (args_number a) ?w1) = Some []"
    using assms fetch_pubmed_data_result [of env "args_query a" "args_number a" ?w1 w] by simp
  from fetch_pubmed_data_world [OF r] r
  have "fetch_pubmed_data env (args_query a) (args_number a) ?w1 =
          (Some [], ?w1\<lparr>requests := requests ?w1 @
             [(''https://eutils.ncbi.nlm.nih.gov/entrez/eutils/esearch.fcgi'',
               [(''db'', ''pubmed''), (''term'', args_query a),
                (''retmax'', str_int (args_number a)), (''retmode'', ''json'')])]\<rparr>)"
    by (simp add: prod_eq_iff)
  then show ?thesis
    by (simp add: main_def Let_def py_print_def)
qed

text \<open>A run in which the search reply holds an empty \<open>idlist\<close>.\<close>

theorem main_no_papers_witness:
  "fst (fetch_pubmed_data env_no_results (args_query args_example) (args_number args_example) world0)
     = Some []
   \<and> fst (main env_no_results args_example world0) = None
   \<and> stdout (snd (main env_no_results args_example world0)) =
       [''Fetching papers for query: no such topic'', ''No papers found for the query.'']
   \<and> map fst (requests (snd (main env_no_results args_example world0))) =
       [''https://eutils.ncbi.nlm.nih.gov/entrez/eutils/esearch.fcgi'']"
proof -
  have a: "fst (fetch_pubmed_data env_no_results (args_query args_example)
             (args_number args_example) world0) = Some []"
    by (simp add: fetch_pubmed_data_def env_no_results_def Let_def)
  show ?thesis using main_no_papers [OF a] a
    by (simp add: world0_def args_example_def)
qed

text \<open>
  C10. On a non-empty list of records that all have the seven keys in the fixed order,
  the writer of cli.py and the writer of get\_paper.py return the same result and leave
  the same files and the same printed lines.
\<close>

theorem writers_agree:
  assumes "parsed_data \<noteq> []" and "\<forall>paper\<in>set parsed_data. map fst paper = fixed_keys"
  shows "cli_save_to_csv parsed_data filename w = save_to_csv parsed_data filename w"
  using assms by (cases parsed_data) (simp_all add: cli_save_to_csv_def save_to_csv_def)

text \<open>The two writers on two records.\<close>

theorem writers_agree_witness:
  "[paper_two_authors, paper_empty_article] \<noteq> []
   \<and> map fst paper_two_authors = fixed_keys \<and> map fst paper_empty_article = fixed_keys
   \<and> cli_save_to_csv [paper_two_authors, paper_empty_article] ''results.csv'' world0
     = save_to_csv [paper_two_authors, paper_empty_article] ''results.csv'' world0"
proof -
  have a: "[paper_two_authors, paper_empty_article] \<noteq> []" by simp
  have b: "\<forall>paper\<in>set [paper_two_authors, paper_empty_article]. map fst paper = fixed_keys"
    by (simp add: paper_two_authors_def paper_empty_article_def fixed_keys_def)
  show ?thesis using writers_agree [OF a b, of "''results.csv''" world0] a b by simp
qed

end
